theory Spec2Isabelle
  imports Main
begin

section \<open>Markup simplifier (DOMSimplifier.simplify)\<close>

text \<open>
  The parse tree that BeautifulSoup builds: a tag with its name, its attribute dictionary
  (in insertion order) and its children, or a text node. An attribute value is a string,
  or a list of strings for the multi-valued attributes such as \<open>class\<close>.
\<close>

datatype attr_value = Single string | Multi "string list"

datatype soup_node =
    Tag (tag_name: string) (tag_attrs: "(string \<times> attr_value) list") (tag_children: "soup_node list")
  | NavigableString string

text \<open>The two literal lists of the source.\<close>

definition excluded_tags :: "string list" where
  "excluded_tags = [''script'', ''style'', ''svg'', ''path'', ''head'', ''meta'', ''noscript'', ''footer'']"

definition allowed_attrs :: "string list" where
  "allowed_attrs = [''id'', ''name'', ''class'', ''href'', ''type'', ''placeholder'', ''aria-label'', ''role'']"

text \<open>\<open>soup(names)\<close> selects every tag whose name is in \<open>names\<close>.\<close>

fun is_named :: "string list \<Rightarrow> soup_node \<Rightarrow> bool" where
  "is_named names (Tag n a cs) = (n \<in> set names)"
| "is_named names (NavigableString s) = False"

text \<open>
  \<open>for element in soup(names): element.decompose()\<close>: every selected tag is removed
  from its parent together with its subtree, at every depth.
\<close>

fun decompose_in :: "string list \<Rightarrow> soup_node \<Rightarrow> soup_node" where
  "decompose_in names (Tag n a cs) =
     Tag n a (map (decompose_in names) (filter (\<lambda>c. \<not> is_named names c) cs))"
| "decompose_in names (NavigableString s) = NavigableString s"

definition decompose_all :: "string list \<Rightarrow> soup_node list \<Rightarrow> soup_node list" where
  "decompose_all names soup = map (decompose_in names) (filter (\<lambda>c. \<not> is_named names c) soup)"

text \<open>
  \<open>tag.attrs = {k: v for k, v in tag.attrs.items() if k in allowed_attrs}\<close>,
  for every tag of \<open>soup.find_all(True)\<close>.
\<close>

definition keep_allowed :: "(string \<times> attr_value) list \<Rightarrow> (string \<times> attr_value) list" where
  "keep_allowed attrs = filter (\<lambda>(k, v). k \<in> set allowed_attrs) attrs"

fun simplify_attrs :: "soup_node \<Rightarrow> soup_node" where
  "simplify_attrs (Tag n a cs) = Tag n (keep_allowed a) (map simplify_attrs cs)"
| "simplify_attrs (NavigableString s) = NavigableString s"

text \<open>\<open>find_all(True)\<close>: every tag below the given nodes, in document order.\<close>

fun find_all :: "soup_node \<Rightarrow> soup_node list" where
  "find_all (Tag n a cs) = Tag n a cs # concat (map find_all cs)"
| "find_all (NavigableString s) = []"

definition find_all_soup :: "soup_node list \<Rightarrow> soup_node list" where
  "find_all_soup soup = concat (map find_all soup)"

text \<open>
  The tree that \<open>simplify\<close> hands to the serialiser, and \<open>simplify\<close> itself. The parser
  (\<open>BeautifulSoup(html, 'html.parser')\<close>) and the serialiser (\<open>prettify\<close>) belong to
  the library, not to the program: they are parameters.
\<close>

definition simplify_tree :: "(string \<Rightarrow> soup_node list) \<Rightarrow> string \<Rightarrow> soup_node list" where
  "simplify_tree parser html_content = map simplify_attrs (decompose_all excluded_tags (parser html_content))"

definition simplify :: "(string \<Rightarrow> soup_node list) \<Rightarrow> (soup_node list \<Rightarrow> string) \<Rightarrow> string \<Rightarrow> string" where
  "simplify parser prettify html_content = prettify (simplify_tree parser html_content)"

section \<open>Python values and exceptions\<close>

text \<open>
  What \<open>json.loads\<close> can return: \<open>None\<close>, a boolean, a number (the integers;
  a fraction plays no part in the program), a string, a list or a dictionary.
\<close>

datatype py_value =
    PNone
  | PBool bool
  | PInt int
  | PStr string
  | PList "py_value list"
  | PDict "(string \<times> py_value) list"

text \<open>
  The exceptions of the program, all subclasses of \<open>Exception\<close>: the \<open>AttributeError\<close>
  that Python raises for a method the value does not have, and \<open>Error\<close> for whatever the
  browser, the reasoning service or the JSON decoder raises. Each carries its \<open>str(e)\<close>.
\<close>

datatype exn = AttributeError string | Error string

fun str_of_exn :: "exn \<Rightarrow> string" where
  "str_of_exn (AttributeError m) = m"
| "str_of_exn (Error m) = m"

definition apostrophe :: string where
  "apostrophe = [CHR 0x27]"

fun py_type_name :: "py_value \<Rightarrow> string" where
  "py_type_name PNone = ''NoneType''"
| "py_type_name (PBool b) = ''bool''"
| "py_type_name (PInt i) = ''int''"
| "py_type_name (PStr s) = ''str''"
| "py_type_name (PList xs) = ''list''"
| "py_type_name (PDict kvs) = ''dict''"

definition no_attribute :: "py_value \<Rightarrow> string \<Rightarrow> exn" where
  "no_attribute v attr =
     AttributeError (apostrophe @ py_type_name v @ apostrophe @ '' object has no attribute ''
                     @ apostrophe @ attr @ apostrophe)"

text \<open>\<open>d.get(key)\<close> on a dictionary: the value, or \<open>None\<close> for a missing key.\<close>

definition py_get :: "(string \<times> py_value) list \<Rightarrow> string \<Rightarrow> py_value" where
  "py_get kvs key = (case map_of kvs key of None \<Rightarrow> PNone | Some v \<Rightarrow> v)"

text \<open>\<open>plan.get(key)\<close>: only a dictionary has the method.\<close>

fun plan_get :: "py_value \<Rightarrow> string \<Rightarrow> exn + py_value" where
  "plan_get (PDict kvs) key = Inr (py_get kvs key)"
| "plan_get v key = Inl (no_attribute v ''get'')"

text \<open>
  \<open>action.upper()\<close>: only a string has the method. Its result is only printed, so the
  model keeps whether it raises.
\<close>

fun py_upper :: "py_value \<Rightarrow> exn + unit" where
  "py_upper (PStr s) = Inr ()"
| "py_upper v = Inl (no_attribute v ''upper'')"

text \<open>
  A value inside an f-string is formatted with \<open>str\<close>. For a number, a list or a
  dictionary that is Python's \<open>repr\<close>, a parameter here.
\<close>

fun py_str :: "(py_value \<Rightarrow> string) \<Rightarrow> py_value \<Rightarrow> string" where
  "py_str repr (PStr s) = s"
| "py_str repr PNone = ''None''"
| "py_str repr (PBool b) = (if b then ''True'' else ''False'')"
| "py_str repr v = repr v"

text \<open>
  \<open>str.strip()\<close> removes the white space at both ends. The characters that
  \<open>str.isspace\<close> accepts, among the code points below 256.
\<close>

definition py_isspace :: "char \<Rightarrow> bool" where
  "py_isspace c = (let n = (of_char c :: nat) in
     (9 \<le> n \<and> n \<le> 13) \<or> (28 \<le> n \<and> n \<le> 32) \<or> n = 133 \<or> n = 160)"

definition strip :: "string \<Rightarrow> string" where
  "strip s = rev (dropWhile py_isspace (rev (dropWhile py_isspace s)))"

section \<open>Matched elements and link resolution\<close>

text \<open>
  An element of the rendered HTML page: \<open>tagName\<close> (upper case for an HTML element),
  the \<open>href\<close> property (read on links only) and the child elements.
\<close>

datatype dom_element =
  Element (tagName: string) (href: string) (child_elements: "dom_element list")

text \<open>
  A handle returned by \<open>query_selector_all\<close>: the element, its ancestors from the
  nearest one outwards, what \<open>inner_text()\<close> answers, and the exception, if any, that
  stops \<open>evaluate\<close> before the function runs in the page.
\<close>

record element_handle =
  el_node :: dom_element
  el_parents :: "dom_element list"
  inner_text :: "exn + string"
  evaluate_error :: "exn option"

text \<open>The selector \<open>a\<close> matches the HTML link elements.\<close>

definition matches_a :: "dom_element \<Rightarrow> bool" where
  "matches_a e = (tagName e = ''A'')"

text \<open>\<open>el.closest('a')\<close>: the element itself or its nearest ancestor that matches.\<close>

definition closest_a :: "element_handle \<Rightarrow> dom_element option" where
  "closest_a el = find matches_a (el_node el # el_parents el)"

text \<open>The descendants of an element in document order, the element itself excluded.\<close>

fun descendants :: "dom_element \<Rightarrow> dom_element list" where
  "descendants (Element t h cs) = concat (map (\<lambda>c. c # descendants c) cs)"

text \<open>\<open>el.querySelector('a')\<close>: the first descendant that matches.\<close>

definition querySelector_a :: "dom_element \<Rightarrow> dom_element option" where
  "querySelector_a e = find matches_a (descendants e)"

text \<open>The function that \<open>el.evaluate\<close> runs in the page (lines 208 to 213).\<close>

definition link_of :: "element_handle \<Rightarrow> string option" where
  "link_of el =
     (if tagName (el_node el) = ''A'' then Some (href (el_node el))
      else (case closest_a el of
              Some a \<Rightarrow> Some (href a)
            | None \<Rightarrow> (case querySelector_a (el_node el) of
                         Some child \<Rightarrow> Some (href child)
                       | None \<Rightarrow> None)))"

definition evaluate :: "element_handle \<Rightarrow> exn + string option" where
  "evaluate el = (case evaluate_error el of Some e \<Rightarrow> Inl e | None \<Rightarrow> Inr (link_of el))"

text \<open>
  The link resolution in the words of the specification, written on its own and not over
  the functions above: an element is a link when it is an \<open>A\<close> element; the nearest
  enclosing link ancestor is searched from the parent outwards; the first descendant link
  is the first one in document order, so a link below an earlier child comes before a
  later child.
\<close>

definition is_link :: "dom_element \<Rightarrow> bool" where
  "is_link e = (tagName e = ''A'')"

fun nearest_link_ancestor :: "dom_element list \<Rightarrow> dom_element option" where
  "nearest_link_ancestor [] = None"
| "nearest_link_ancestor (p # ps) = (if is_link p then Some p else nearest_link_ancestor ps)"

fun first_link_below :: "dom_element list \<Rightarrow> dom_element option" where
  "first_link_below [] = None"
| "first_link_below (Element t h ks # cs) =
     (if is_link (Element t h ks) then Some (Element t h ks)
      else (case first_link_below ks of
              Some d \<Rightarrow> Some d
            | None \<Rightarrow> first_link_below cs))"

definition link_spec :: "element_handle \<Rightarrow> string option" where
  "link_spec el =
     (if is_link (el_node el) then Some (href (el_node el))
      else (case nearest_link_ancestor (el_parents el) of
              Some a \<Rightarrow> Some (href a)
            | None \<Rightarrow> (case first_link_below (child_elements (el_node el)) of
                         Some d \<Rightarrow> Some (href d)
                       | None \<Rightarrow> None)))"

text \<open>The items of one scrape (lines 201 to 219).\<close>

record scraped_item =
  item_text :: string
  item_link :: "string option"

fun scrape_elements :: "element_handle list \<Rightarrow> scraped_item list \<Rightarrow> exn + scraped_item list" where
  "scrape_elements [] data = Inr data"
| "scrape_elements (el # els) data =
     (case inner_text el of
        Inl e \<Rightarrow> Inl e
      | Inr txt \<Rightarrow>
          (case evaluate el of
             Inl e \<Rightarrow> Inl e
           | Inr link \<Rightarrow>
               scrape_elements els
                 (if strip txt \<noteq> [] then data @ [\<lparr>item_text = strip txt, item_link = link\<rparr>]
                  else data)))"

section \<open>The planner (AgentPlanner.get_next_action)\<close>

text \<open>
  The prompt embeds the goal, the history, the current URL and the first 30000 characters
  of the simplified markup; the fixed instructions around them are left out.
\<close>

record prompt =
  prompt_goal :: string
  prompt_history :: "string list"
  prompt_url :: string
  prompt_dom :: string

definition build_prompt :: "string \<Rightarrow> string \<Rightarrow> string \<Rightarrow> string list \<Rightarrow> prompt" where
  "build_prompt goal current_url dom_snippet history =
     \<lparr>prompt_goal = goal, prompt_history = history, prompt_url = current_url,
      prompt_dom = take 30000 dom_snippet\<rparr>"

text \<open>
  Everything outside the program, over a state \<open>'w\<close> of the outside world (the browser
  with its page, and the reasoning service). An operation that can raise returns the
  exception on the left or as \<open>Some e\<close>; an operation that acts on the world returns the
  new world as well.
\<close>

record 'w env =
  html_parser :: "string \<Rightarrow> soup_node list"
  prettify :: "soup_node list \<Rightarrow> string"
  py_repr :: "py_value \<Rightarrow> string"
  json_loads :: "string \<Rightarrow> exn + py_value"
  generate_content :: "'w \<Rightarrow> prompt \<Rightarrow> (exn + string) \<times> 'w"
  page_goto :: "'w \<Rightarrow> string \<Rightarrow> exn option \<times> 'w"
  page_content :: "'w \<Rightarrow> exn + string"
  page_url :: "'w \<Rightarrow> string"
  wait_for_selector :: "'w \<Rightarrow> py_value \<Rightarrow> string \<Rightarrow> nat \<Rightarrow> exn option \<times> 'w"
  page_fill :: "'w \<Rightarrow> py_value \<Rightarrow> py_value \<Rightarrow> exn option \<times> 'w"
  page_click :: "'w \<Rightarrow> py_value \<Rightarrow> exn option \<times> 'w"
  wait_for_load_state :: "'w \<Rightarrow> string \<Rightarrow> nat \<Rightarrow> exn option \<times> 'w"
  query_selector_all :: "'w \<Rightarrow> py_value \<Rightarrow> exn + element_handle list"

definition degraded_plan :: py_value where
  "degraded_plan = PDict [(''action'', PStr ''finish''), (''thought'', PStr ''API call failed.'')]"

text \<open>
  Lines 91 to 101: the call of the service (with the read of \<open>response.text\<close>) and
  \<open>json.loads\<close> are inside one \<open>try\<close>; any exception gives the degraded plan.
\<close>

definition get_next_action ::
  "'w env \<Rightarrow> string \<Rightarrow> string \<Rightarrow> string \<Rightarrow> string list \<Rightarrow> 'w \<Rightarrow> py_value \<times> 'w" where
  "get_next_action env goal current_url dom_snippet history w =
     (case generate_content env w (build_prompt goal current_url dom_snippet history) of
        (Inl e, w') \<Rightarrow> (degraded_plan, w')
      | (Inr response_text, w') \<Rightarrow>
          (case json_loads env response_text of
             Inl e \<Rightarrow> (degraded_plan, w')
           | Inr plan \<Rightarrow> (plan, w')))"

section \<open>The agent (WebAgent.run)\<close>

definition MAX_STEPS :: nat where
  "MAX_STEPS = 10"

record scrape_record =
  rec_step :: nat
  rec_data :: "scraped_item list"

record 'w agent =
  history :: "string list"
  collected_data :: "scrape_record list"
  world :: "'w"

definition init_agent :: "'w \<Rightarrow> 'w agent" where
  "init_agent w = \<lparr>history = [], collected_data = [], world = w\<rparr>"

text \<open>How one pass of the loop body ends: the next iteration, \<open>break\<close>, or an exception
  that leaves \<open>run\<close>.\<close>

datatype control = Continue | Break | Raise exn

text \<open>The history entries, as the f-strings build them.\<close>

definition typed_msg :: "(py_value \<Rightarrow> string) \<Rightarrow> py_value \<Rightarrow> py_value \<Rightarrow> string" where
  "typed_msg repr v selector =
     ''Typed '' @ apostrophe @ py_str repr v @ apostrophe @ '' into '' @ py_str repr selector"

definition clicked_msg :: "(py_value \<Rightarrow> string) \<Rightarrow> py_value \<Rightarrow> string" where
  "clicked_msg repr selector = ''Clicked '' @ py_str repr selector"

definition scraped_msg :: "(py_value \<Rightarrow> string) \<Rightarrow> py_value \<Rightarrow> string" where
  "scraped_msg repr selector = ''Scraped data from '' @ py_str repr selector"

definition warning_msg :: "(py_value \<Rightarrow> string) \<Rightarrow> py_value \<Rightarrow> string" where
  "warning_msg repr selector =
     ''WARNING: Scraped 0 items using '' @ py_str repr selector @ ''. Try a different selector.''"

definition error_msg :: "(py_value \<Rightarrow> string) \<Rightarrow> py_value \<Rightarrow> py_value \<Rightarrow> exn \<Rightarrow> string" where
  "error_msg repr action selector e =
     ''Failed to execute '' @ py_str repr action @ '' on '' @ py_str repr selector @ '': ''
     @ str_of_exn e"

text \<open>
  Lines 241 to 244, the handler of the \<open>try\<close> around the action: the message joins the
  history and the loop goes on. The world is the one the failed operation left.
\<close>

definition failed :: "'w env \<Rightarrow> py_value \<Rightarrow> py_value \<Rightarrow> exn \<Rightarrow> 'w \<Rightarrow> 'w agent \<Rightarrow> control \<times> 'w agent" where
  "failed env action selector e w s =
     (Continue, s\<lparr>history := history s @ [error_msg (py_repr env) action selector e], world := w\<rparr>)"

text \<open>
  Lines 169 to 244, the third phase of one pass: the action of the plan is carried out.
  The \<open>print\<close> calls are left out.
\<close>

definition act :: "'w env \<Rightarrow> nat \<Rightarrow> py_value \<Rightarrow> py_value \<Rightarrow> py_value \<Rightarrow> 'w agent \<Rightarrow> control \<times> 'w agent" where
  "act env step action selector v s =
     (if action = PStr ''type'' then
        (case wait_for_selector env (world s) selector ''visible'' 10000 of
           (Some e, w1) \<Rightarrow> failed env action selector e w1 s
         | (None, w1) \<Rightarrow>
             (case page_fill env w1 selector v of
                (Some e, w2) \<Rightarrow> failed env action selector e w2 s
              | (None, w2) \<Rightarrow>
                  (Continue, s\<lparr>history := history s @ [typed_msg (py_repr env) v selector],
                                world := w2\<rparr>)))
      else if action = PStr ''click'' then
        (case wait_for_selector env (world s) selector ''visible'' 10000 of
           (Some e, w1) \<Rightarrow> failed env action selector e w1 s
         | (None, w1) \<Rightarrow>
             (case page_click env w1 selector of
                (Some e, w2) \<Rightarrow> failed env action selector e w2 s
              | (None, w2) \<Rightarrow>
                  (Continue, s\<lparr>history := history s @ [clicked_msg (py_repr env) selector],
                                world := snd (wait_for_load_state env w2 ''networkidle'' 5000)\<rparr>)))
      else if action = PStr ''scrape'' then
        (let w1 = snd (wait_for_selector env (world s) selector ''attached'' 5000) in
         case query_selector_all env w1 selector of
           Inl e \<Rightarrow> failed env action selector e w1 s
         | Inr elements \<Rightarrow>
             (case scrape_elements elements [] of
                Inl e \<Rightarrow> failed env action selector e w1 s
              | Inr data \<Rightarrow>
                  (let s1 = s\<lparr>history := history s @ [scraped_msg (py_repr env) selector],
                               collected_data := collected_data s @ [\<lparr>rec_step = step, rec_data = data\<rparr>],
                               world := w1\<rparr>
                   in if v = PStr ''finish'' then (Break, s1)
                      else if length data = 0
                      then (Continue, s1\<lparr>history := history s1 @ [warning_msg (py_repr env) selector]\<rparr>)
                      else (Continue, s1))))
      else if action = PStr ''finish'' then (Break, s)
      else (Continue, s))"

text \<open>
  Lines 146 to 244, one pass of the loop body: observe, plan, read the four fields of the
  plan, print them (where \<open>action.upper()\<close> is evaluated), act. An exception of the
  observation ends the loop; one raised between the plan and the action is not handled.
  Of the observation, reading the page content is the call that can raise; the simplifier
  over the library's parser and the read of \<open>page.url\<close> are total here.
\<close>

definition run_step :: "'w env \<Rightarrow> string \<Rightarrow> nat \<Rightarrow> 'w agent \<Rightarrow> control \<times> 'w agent" where
  "run_step env goal step s =
     (case page_content env (world s) of
        Inl e \<Rightarrow> (Break, s)
      | Inr content \<Rightarrow>
          (let clean_dom = simplify (html_parser env) (prettify env) content;
               current_url = page_url env (world s);
               (plan, w1) = get_next_action env goal current_url clean_dom (history s) (world s);
               s1 = s\<lparr>world := w1\<rparr>
           in case plan_get plan ''thought'' of
                Inl e \<Rightarrow> (Raise e, s1)
              | Inr thought \<Rightarrow>
           (case plan_get plan ''action'' of
                Inl e \<Rightarrow> (Raise e, s1)
              | Inr action \<Rightarrow>
           (case plan_get plan ''selector'' of
                Inl e \<Rightarrow> (Raise e, s1)
              | Inr selector \<Rightarrow>
           (case plan_get plan ''value'' of
                Inl e \<Rightarrow> (Raise e, s1)
              | Inr v \<Rightarrow>
           (case py_upper action of
                Inl e \<Rightarrow> (Raise e, s1)
              | Inr u \<Rightarrow> act env step action selector v s1))))))"

text \<open>
  Line 145, \<open>for step in range(MAX_STEPS)\<close>, from the value \<open>step\<close> on. The result is
  the exception that left the loop, if any, the values that \<open>step\<close> took, and the agent.
\<close>

function run_loop ::
  "'w env \<Rightarrow> string \<Rightarrow> nat \<Rightarrow> nat \<Rightarrow> 'w agent \<Rightarrow> exn option \<times> nat list \<times> 'w agent" where
  "run_loop env goal max_steps step s =
     (if step < max_steps then
        (case run_step env goal step s of
           (Continue, s') \<Rightarrow>
             (case run_loop env goal max_steps (Suc step) s' of
                (r, steps, s'') \<Rightarrow> (r, step # steps, s''))
         | (Break, s') \<Rightarrow> (None, [step], s')
         | (Raise e, s') \<Rightarrow> (Some e, [step], s'))
      else (None, [], s))"
  by pat_completeness auto
termination
  by (relation "measure (\<lambda>(env, goal, max_steps, step, s). max_steps - step)") auto

text \<open>
  Lines 141 to 245: \<open>page.goto\<close>, then the loop. The start of the browser before it and
  the \<open>finally\<close> block after it (closing the browser, saving the results) are left out.
\<close>

definition run :: "'w env \<Rightarrow> string \<Rightarrow> string \<Rightarrow> 'w agent \<Rightarrow> exn option \<times> nat list \<times> 'w agent" where
  "run env target_url goal s =
     (case page_goto env (world s) target_url of
        (Some e, w) \<Rightarrow> (Some e, [], s\<lparr>world := w\<rparr>)
      | (None, w) \<Rightarrow> run_loop env goal MAX_STEPS 0 (s\<lparr>world := w\<rparr>))"

text \<open>
  The plan that a pass works with when its observation succeeds: what
  \<open>get_next_action\<close> returns for the observed page, and the world after the call.
\<close>

definition step_plan :: "'w env \<Rightarrow> string \<Rightarrow> 'w agent \<Rightarrow> (py_value \<times> 'w) option" where
  "step_plan env goal s =
     (case page_content env (world s) of
        Inl e \<Rightarrow> None
      | Inr content \<Rightarrow>
          Some (get_next_action env goal (page_url env (world s))
                  (simplify (html_parser env) (prettify env) content) (history s) (world s)))"

text \<open>A recorded item is clean when its text is not empty and already trimmed.\<close>

definition clean_item :: "scraped_item \<Rightarrow> bool" where
  "clean_item it = (item_text it \<noteq> [] \<and> strip (item_text it) = item_text it)"

definition clean_records :: "scrape_record list \<Rightarrow> bool" where
  "clean_records recs = list_all (\<lambda>r. list_all clean_item (rec_data r)) recs"

section \<open>Concrete inputs\<close>

text \<open>A small parsed page with a head, a script and attributes outside the allow-list.\<close>

definition page1 :: "soup_node list" where
  "page1 =
     [Tag ''html'' []
        [Tag ''head'' [] [Tag ''meta'' [(''charset'', Single ''utf-8'')] []],
         Tag ''body'' [(''onload'', Single ''f()''), (''class'', Multi [''c''])]
           [Tag ''script'' [] [NavigableString ''x''],
            Tag ''a'' [(''href'', Single ''/x''), (''style'', Single ''y'')] [NavigableString ''t'']]]]"

text \<open>
  A world without state in which every browser operation succeeds, the service answers
  what \<open>answer\<close> says, the decoder returns \<open>decoded\<close> and every selector matches
  \<open>matched\<close>.
\<close>

definition stub_env ::
  "(exn + string) \<Rightarrow> (exn + py_value) \<Rightarrow> (exn + element_handle list) \<Rightarrow> unit env" where
  "stub_env answer decoded matched =
     \<lparr>html_parser = (\<lambda>h. page1),
      prettify = (\<lambda>t. ''<html></html>''),
      py_repr = (\<lambda>v. ''?''),
      json_loads = (\<lambda>t. decoded),
      generate_content = (\<lambda>w p. (answer, w)),
      page_goto = (\<lambda>w u. (None, w)),
      page_content = (\<lambda>w. Inr ''<html></html>''),
      page_url = (\<lambda>w. ''https://example.org/''),
      wait_for_selector = (\<lambda>w sel st t. (None, w)),
      page_fill = (\<lambda>w sel v. (None, w)),
      page_click = (\<lambda>w sel. (None, w)),
      wait_for_load_state = (\<lambda>w st t. (None, w)),
      query_selector_all = (\<lambda>w sel. matched)\<rparr>"

definition plan_env :: "py_value \<Rightarrow> (exn + element_handle list) \<Rightarrow> unit env" where
  "plan_env plan matched = stub_env (Inr ''{}'') (Inr plan) matched"

definition type_plan :: py_value where
  "type_plan = PDict [(''thought'', PStr ''search''), (''action'', PStr ''type''),
                      (''selector'', PStr ''#search''), (''value'', PStr ''X'')]"

definition scrape_plan :: "string \<Rightarrow> py_value" where
  "scrape_plan v = PDict [(''thought'', PStr ''read''), (''action'', PStr ''scrape''),
                          (''selector'', PStr ''.result''), (''value'', PStr v)]"

definition no_action_plan :: py_value where
  "no_action_plan = PDict [(''thought'', PStr ''nothing to do'')]"

text \<open>Two matched elements: a text inside a link, and one whose text is blank.\<close>

definition result_el :: element_handle where
  "result_el = \<lparr>el_node = Element ''SPAN'' [] [],
                el_parents = [Element ''DIV'' [] [], Element ''A'' ''https://example.org/x'' []],
                inner_text = Inr ''  hi there  '', evaluate_error = None\<rparr>"

definition blank_el :: element_handle where
  "blank_el = \<lparr>el_node = Element ''DIV'' [] [Element ''A'' ''https://example.org/y'' []],
               el_parents = [], inner_text = Inr ''   '', evaluate_error = None\<rparr>"

text \<open>
  Four matched elements, one for each way a link is resolved: a link with a link around it
  and a link inside it; a text with a link inside it, below a plain element that is itself
  inside two links; an element with no link around it, whose first child holds a link
  and whose second child is a link; an element with no link at all.
\<close>

definition own_link_el :: element_handle where
  "own_link_el = \<lparr>el_node = Element ''A'' ''https://example.org/own'' [Element ''A'' ''https://example.org/inner'' []],
                  el_parents = [Element ''A'' ''https://example.org/outer'' []],
                  inner_text = Inr ''own'', evaluate_error = None\<rparr>"

definition inside_link_el :: element_handle where
  "inside_link_el = \<lparr>el_node = Element ''SPAN'' [] [Element ''A'' ''https://example.org/inner'' []],
                     el_parents = [Element ''DIV'' [] [], Element ''A'' ''https://example.org/near'' [],
                                   Element ''A'' ''https://example.org/far'' []],
                     inner_text = Inr '' inside '', evaluate_error = None\<rparr>"

definition around_link_el :: element_handle where
  "around_link_el = \<lparr>el_node = Element ''LI'' []
                        [Element ''DIV'' [] [Element ''P'' [] [], Element ''A'' ''https://example.org/deep'' []],
                         Element ''A'' ''https://example.org/shallow'' []],
                     el_parents = [Element ''UL'' [] [], Element ''BODY'' [] []],
                     inner_text = Inr ''around'', evaluate_error = None\<rparr>"

definition plain_el :: element_handle where
  "plain_el = \<lparr>el_node = Element ''P'' [] [Element ''B'' [] []],
               el_parents = [Element ''BODY'' [] []],
               inner_text = Inr ''plain'', evaluate_error = None\<rparr>"

section \<open>The markup simplifier: properties\<close>

lemma find_all_tags: "t \<in> set (find_all n) \<Longrightarrow> \<exists>nm a cs. t = Tag nm a cs"
  by (induction n) auto

lemma find_all_decompose_in:
  "\<not> is_named names n \<Longrightarrow> t \<in> set (find_all (decompose_in names n)) \<Longrightarrow> \<not> is_named names t"
  by (induction n arbitrary: t) auto

lemma find_all_simplify_attrs: "find_all (simplify_attrs n) = map simplify_attrs (find_all n)"
  by (induction n) (auto simp: map_concat comp_def cong: map_cong)

text \<open>
  Claim C8. For every markup string, \<open>simplify\<close> serialises a tree in which no tag has one
  of the excluded names (script, style, svg, path, head, meta, noscript, footer) and every
  attribute of every tag is on the allow-list (id, name, class, href, type, placeholder,
  aria-label, role). The property is about the tree handed to the serialiser; the parser
  and the serialiser are the library's.
\<close>

theorem simplify_output:
  "simplify parser serialise html_content = serialise (simplify_tree parser html_content) \<and>
   (\<forall>t \<in> set (find_all_soup (simplify_tree parser html_content)).
      (\<exists>nm a cs. t = Tag nm a cs) \<and> \<not> is_named excluded_tags t \<and>
      (\<forall>(k, v) \<in> set (tag_attrs t). k \<in> set allowed_attrs))"
proof -
  have "(\<exists>nm a cs. t = Tag nm a cs) \<and> \<not> is_named excluded_tags t \<and>
      (\<forall>(k, v) \<in> set (tag_attrs t). k \<in> set allowed_attrs)"
    if t: "t \<in> set (find_all_soup (simplify_tree parser html_content))" for t
  proof -
    from t obtain n where n: "n \<in> set (parser html_content)" "\<not> is_named excluded_tags n"
      and tn: "t \<in> set (find_all (simplify_attrs (decompose_in excluded_tags n)))"
      by (auto simp: find_all_soup_def simplify_tree_def decompose_all_def)
    from tn obtain u where u: "u \<in> set (find_all (decompose_in excluded_tags n))"
      and tu: "t = simplify_attrs u"
      by (auto simp: find_all_simplify_attrs)
    from find_all_tags[OF u] obtain nm a cs where utag: "u = Tag nm a cs" by blast
    from find_all_decompose_in[OF n(2) u] have "\<not> is_named excluded_tags u" .
    then show ?thesis using tu utag by (auto simp: keep_allowed_def)
  qed
  then show ?thesis by (simp add: simplify_def)
qed

theorem simplify_output_witness:
  "find_all_soup (simplify_tree (\<lambda>h. page1) ''<html>'') =
     [Tag ''html'' [] [Tag ''body'' [(''class'', Multi [''c''])]
        [Tag ''a'' [(''href'', Single ''/x'')] [NavigableString ''t'']]],
      Tag ''body'' [(''class'', Multi [''c''])]
        [Tag ''a'' [(''href'', Single ''/x'')] [NavigableString ''t'']],
      Tag ''a'' [(''href'', Single ''/x'')] [NavigableString ''t'']] \<and>
   list_all (\<lambda>t. \<not> is_named excluded_tags t \<and>
                  list_all (\<lambda>(k, v). k \<in> set allowed_attrs) (tag_attrs t))
     (find_all_soup (simplify_tree (\<lambda>h. page1) ''<html>''))"
proof -
  have "find_all_soup (simplify_tree (\<lambda>h. page1) ''<html>'') =
     [Tag ''html'' [] [Tag ''body'' [(''class'', Multi [''c''])]
        [Tag ''a'' [(''href'', Single ''/x'')] [NavigableString ''t'']]],
      Tag ''body'' [(''class'', Multi [''c''])]
        [Tag ''a'' [(''href'', Single ''/x'')] [NavigableString ''t'']],
      Tag ''a'' [(''href'', Single ''/x'')] [NavigableString ''t'']]"
    by (simp add: find_all_soup_def simplify_tree_def decompose_all_def page1_def excluded_tags_def
          keep_allowed_def allowed_attrs_def)
  moreover from simplify_output [of "\<lambda>h. page1" "\<lambda>t. []" "''<html>''"]
  have "list_all (\<lambda>t. \<not> is_named excluded_tags t \<and>
                  list_all (\<lambda>(k, v). k \<in> set allowed_attrs) (tag_attrs t))
     (find_all_soup (simplify_tree (\<lambda>h. page1) ''<html>''))"
    unfolding list_all_iff by blast
  ultimately show ?thesis by blast
qed

section \<open>Link resolution: properties\<close>

lemma find_append_case:
  "find P (xs @ ys) = (case find P xs of Some x \<Rightarrow> Some x | None \<Rightarrow> find P ys)"
  by (induction xs) auto

lemma find_nearest_link_ancestor: "find matches_a ps = nearest_link_ancestor ps"
  by (induction ps) (auto simp: matches_a_def is_link_def)

lemma find_descendants:
  "find matches_a (concat (map (\<lambda>c. c # descendants c) cs)) = first_link_below cs"
proof (induction cs rule: first_link_below.induct)
  case 1
  show ?case by simp
next
  case (2 t h ks cs)
  show ?case
  proof (cases "is_link (Element t h ks)")
    case True
    then show ?thesis by (simp add: matches_a_def is_link_def)
  next
    case False
    with 2 show ?thesis
      by (simp add: matches_a_def is_link_def find_append_case split: option.splits)
  qed
qed

lemma querySelector_a_first_link: "querySelector_a e = first_link_below (child_elements e)"
  by (cases e) (simp add: querySelector_a_def find_descendants)

lemma link_of_spec: "link_of el = link_spec el"
  by (simp add: link_of_def link_spec_def closest_a_def querySelector_a_first_link
        find_nearest_link_ancestor[symmetric] matches_a_def is_link_def split: option.splits)

lemma scrape_elements_items:
  "scrape_elements els data = Inr out \<Longrightarrow>
   out = data @ map (\<lambda>el. \<lparr>item_text = strip (projr (inner_text el)), item_link = link_spec el\<rparr>)
                  (filter (\<lambda>el. strip (projr (inner_text el)) \<noteq> []) els)"
proof (induction els arbitrary: data)
  case Nil
  then show ?case by simp
next
  case (Cons el els)
  from Cons.prems obtain t where t: "inner_text el = Inr t" and ok: "evaluate_error el = None"
    by (auto simp: evaluate_def split: sum.splits option.splits)
  let ?item = "\<lparr>item_text = strip t, item_link = link_spec el\<rparr>"
  from Cons.prems t ok
  have "scrape_elements els (if strip t \<noteq> [] then data @ [?item] else data) = Inr out"
    by (simp add: evaluate_def link_of_spec)
  from Cons.IH[OF this] t show ?case by simp
qed

text \<open>
  Claim C10. The link of a matched element is resolved in the order of the specification:
  the element's own href when it is a link, else the href of its nearest enclosing link
  ancestor, else the href of its first descendant link, else null; and that link is the
  \<open>link\<close> field of the item recorded for the element, for every list of matched
  elements.
\<close>

theorem link_resolution_order:
  "link_of el = link_spec el \<and>
   (scrape_elements els [] = Inr data \<longrightarrow>
      data = map (\<lambda>el. \<lparr>item_text = strip (projr (inner_text el)), item_link = link_spec el\<rparr>)
                 (filter (\<lambda>el. strip (projr (inner_text el)) \<noteq> []) els))"
  using scrape_elements_items [of els "[]" data] by (simp add: link_of_spec)

theorem link_resolution_order_witness:
  "scrape_elements [own_link_el, inside_link_el, around_link_el, plain_el] [] =
     Inr [\<lparr>item_text = ''own'', item_link = Some ''https://example.org/own''\<rparr>,
          \<lparr>item_text = ''inside'', item_link = Some ''https://example.org/near''\<rparr>,
          \<lparr>item_text = ''around'', item_link = Some ''https://example.org/deep''\<rparr>,
          \<lparr>item_text = ''plain'', item_link = None\<rparr>] \<and>
   map link_spec [own_link_el, inside_link_el, around_link_el, plain_el] =
     [Some ''https://example.org/own'', Some ''https://example.org/near'',
      Some ''https://example.org/deep'', None]"
proof -
  let ?els = "[own_link_el, inside_link_el, around_link_el, plain_el]"
  let ?data = "[\<lparr>item_text = ''own'', item_link = Some ''https://example.org/own''\<rparr>,
          \<lparr>item_text = ''inside'', item_link = Some ''https://example.org/near''\<rparr>,
          \<lparr>item_text = ''around'', item_link = Some ''https://example.org/deep''\<rparr>,
          \<lparr>item_text = ''plain'', item_link = None\<rparr>]"
  have ev: "scrape_elements ?els [] = Inr ?data"
    by (simp add: own_link_el_def inside_link_el_def around_link_el_def plain_el_def evaluate_def
          link_of_def closest_a_def querySelector_a_def matches_a_def strip_def py_isspace_def)
  have keep: "filter (\<lambda>el. strip (projr (inner_text el)) \<noteq> []) ?els = ?els"
    by (simp add: own_link_el_def inside_link_el_def around_link_el_def plain_el_def
          strip_def py_isspace_def)
  from link_resolution_order [of own_link_el ?els ?data] ev
  have "?data = map (\<lambda>el. \<lparr>item_text = strip (projr (inner_text el)), item_link = link_spec el\<rparr>)
                 (filter (\<lambda>el. strip (projr (inner_text el)) \<noteq> []) ?els)" by blast
  then have "map item_link ?data = map link_spec ?els"
    unfolding keep by (simp only: list.map scraped_item.simps)
  then have "map link_spec ?els = [Some ''https://example.org/own'', Some ''https://example.org/near'',
      Some ''https://example.org/deep'', None]" by simp
  with ev show ?thesis by blast
qed

section \<open>The control loop: shared lemmas\<close>

declare run_loop.simps [simp del]

lemmas stub_defs = plan_env_def stub_env_def scrape_plan_def type_plan_def no_action_plan_def
  init_agent_def run_step_def get_next_action_def act_def failed_def Let_def py_get_def
  scraped_msg_def warning_msg_def error_msg_def typed_msg_def apostrophe_def

lemmas el_defs = result_el_def blank_el_def evaluate_def link_of_def closest_a_def querySelector_a_def
  matches_a_def strip_def py_isspace_def

lemma run_loop_done: "\<not> step < max_steps \<Longrightarrow> run_loop env goal max_steps step s = (None, [], s)"
  by (simp add: run_loop.simps)

lemma run_loop_break:
  "step < max_steps \<Longrightarrow> run_step env goal step s = (Break, s') \<Longrightarrow>
   run_loop env goal max_steps step s = (None, [step], s')"
  by (simp add: run_loop.simps)

lemma run_loop_raise:
  "step < max_steps \<Longrightarrow> run_step env goal step s = (Raise e, s') \<Longrightarrow>
   run_loop env goal max_steps step s = (Some e, [step], s')"
  by (simp add: run_loop.simps)

lemma run_loop_continue:
  "step < max_steps \<Longrightarrow> run_step env goal step s = (Continue, s') \<Longrightarrow>
   run_loop env goal max_steps step s =
     (case run_loop env goal max_steps (Suc step) s' of (r, steps, s'') \<Rightarrow> (r, step # steps, s''))"
  by (simp add: run_loop.simps)

lemma run_loop_steps:
  "run_loop env goal max_steps step s = (r, steps, s') \<Longrightarrow>
   steps = [step..<step + length steps] \<and> length steps \<le> max_steps - step"
proof (induction env goal max_steps step s arbitrary: r steps s' rule: run_loop.induct)
  case (1 env goal max_steps step s)
  show ?case
  proof (cases "step < max_steps")
    case False
    with "1.prems" show ?thesis by (simp add: run_loop_done)
  next
    case True
    obtain c s1 where rs: "run_step env goal step s = (c, s1)" by (cases "run_step env goal step s")
    show ?thesis
    proof (cases c)
      case Continue
      obtain r2 steps2 s2 where rl: "run_loop env goal max_steps (Suc step) s1 = (r2, steps2, s2)"
        by (cases "run_loop env goal max_steps (Suc step) s1")
      from "1.IH"[OF True rs[symmetric] Continue rl]
      have ih: "steps2 = [Suc step..<Suc step + length steps2]" "length steps2 \<le> max_steps - Suc step"
        by simp_all
      from "1.prems" True rs Continue rl have "steps = step # steps2"
        by (simp add: run_loop_continue)
      with ih True show ?thesis by (simp add: upt_rec)
    next
      case Break
      with "1.prems" True rs show ?thesis by (auto simp: run_loop_break)
    next
      case (Raise e)
      with "1.prems" True rs show ?thesis by (auto simp: run_loop_raise)
    qed
  qed
qed

lemma run_loop_all_continue:
  "(\<And>k t. fst (run_step env goal k t) = Continue) \<Longrightarrow>
   length (fst (snd (run_loop env goal max_steps step s))) = max_steps - step"
proof (induction env goal max_steps step s rule: run_loop.induct)
  case (1 env goal max_steps step s)
  show ?case
  proof (cases "step < max_steps")
    case False
    then show ?thesis by (simp add: run_loop_done)
  next
    case True
    obtain c s1 where rs: "run_step env goal step s = (c, s1)" by (cases "run_step env goal step s")
    with "1.prems"[of step s] have c: "c = Continue" by simp
    from "1.IH"[OF True rs[symmetric] c] "1.prems"
    have "length (fst (snd (run_loop env goal max_steps (Suc step) s1))) = max_steps - Suc step"
      by simp
    with True rs c show ?thesis by (auto simp: run_loop_continue split: prod.splits)
  qed
qed

lemma run_step_act:
  "step_plan env goal s = Some (PDict kvs, wp) \<Longrightarrow> py_get kvs ''action'' = PStr a \<Longrightarrow>
   run_step env goal step s =
     act env step (PStr a) (py_get kvs ''selector'') (py_get kvs ''value'') (s\<lparr>world := wp\<rparr>)"
  by (auto simp: step_plan_def run_step_def Let_def split: sum.splits)

lemma act_finish: "act env step (PStr ''finish'') selector v s = (Break, s)"
  by (simp add: act_def)

lemma degraded_fields:
  "py_get [(''action'', PStr ''finish''), (''thought'', PStr ''API call failed.'')] ''action'' = PStr ''finish''"
  by (simp add: py_get_def)

lemma act_scrape:
  assumes "query_selector_all env (snd (wait_for_selector env (world s) selector ''attached'' 5000)) selector = Inr els"
    and "scrape_elements els [] = Inr data"
  shows "act env step (PStr ''scrape'') selector v s =
     (if v = PStr ''finish'' then Break else Continue,
      s\<lparr>history := history s @ scraped_msg (py_repr env) selector #
                      (if v \<noteq> PStr ''finish'' \<and> data = [] then [warning_msg (py_repr env) selector] else []),
        collected_data := collected_data s @ [\<lparr>rec_step = step, rec_data = data\<rparr>],
        world := snd (wait_for_selector env (world s) selector ''attached'' 5000)\<rparr>)"
  using assms by (simp add: act_def Let_def)

lemma act_unknown:
  "action \<noteq> PStr ''type'' \<Longrightarrow> action \<noteq> PStr ''click'' \<Longrightarrow> action \<noteq> PStr ''scrape'' \<Longrightarrow>
   action \<noteq> PStr ''finish'' \<Longrightarrow> act env step action selector v s = (Continue, s)"
  by (simp add: act_def)


lemma run_step_cases:
  "(snd (run_step env goal step s) = s) \<or>
   (\<exists>w1. snd (run_step env goal step s) = s\<lparr>world := w1\<rparr>) \<or>
   (\<exists>w1 action selector v. run_step env goal step s = act env step action selector v (s\<lparr>world := w1\<rparr>))"
  by (simp add: run_step_def Let_def split: sum.splits prod.splits) blast


lemma strip_idem_aux:
  "dropWhile P (rev (dropWhile P (rev (dropWhile P s)))) = rev (dropWhile P (rev (dropWhile P s)))"
proof -
  let ?t = "dropWhile P s"
  let ?u = "dropWhile P (rev ?t)"
  show ?thesis
  proof (cases "?u = []")
    case True then show ?thesis by (metis dropWhile.simps(1) rev.simps(1))
  next
    case False
    have "rev ?t = takeWhile P (rev ?t) @ ?u" by simp
    then have "?t = rev ?u @ rev (takeWhile P (rev ?t))"
      by (metis rev_append rev_rev_ident)
    then have "hd ?t = hd (rev ?u)" using False
      by (metis hd_append2 rev_is_Nil_conv)
    moreover have "?t \<noteq> []" using False by (metis dropWhile.simps(1) rev.simps(1))
    then have "\<not> P (hd ?t)" by (rule hd_dropWhile)
    ultimately have "\<not> P (hd (rev ?u))" by simp
    then show ?thesis using False by (cases "rev ?u") auto
  qed
qed

lemma strip_strip: "strip (strip s) = strip s"
  unfolding strip_def by (simp add: strip_idem_aux)

lemma scrape_elements_clean:
  "scrape_elements els data = Inr out \<Longrightarrow> list_all clean_item data \<Longrightarrow> list_all clean_item out"
  by (induction els arbitrary: data) (auto simp: clean_item_def strip_strip split: sum.splits if_splits)

lemma act_collected:
  "\<exists>new. collected_data (snd (act env step action selector v s)) = collected_data s @ new \<and>
         clean_records new"
  by (auto simp: act_def failed_def Let_def clean_records_def
           dest: scrape_elements_clean split: prod.splits option.splits sum.splits)

lemma run_step_collected:
  "\<exists>new. collected_data (snd (run_step env goal step s)) = collected_data s @ new \<and> clean_records new"
proof -
  from run_step_cases[of env goal step s] show ?thesis
  proof (elim disjE exE)
    fix w1 action selector v
    assume a: "run_step env goal step s = act env step action selector v (s\<lparr>world := w1\<rparr>)"
    from act_collected[of env step action selector v "s\<lparr>world := w1\<rparr>"] a
    show ?thesis by auto
  qed (auto simp: clean_records_def)
qed

lemma clean_records_append: "clean_records (xs @ ys) = (clean_records xs \<and> clean_records ys)"
  by (simp add: clean_records_def)

lemma scraped_not_warning: "scraped_msg repr selector \<noteq> warning_msg repr selector"
  by (simp add: scraped_msg_def warning_msg_def)

section \<open>The control loop: properties\<close>

text \<open>
  Claim C1. The step counter takes the values 0, 1, ... in order and stays below the
  maximum; the loop ends after at most \<open>max_steps\<close> passes, whatever the planner
  returns, and after exactly that many when no pass ever ends the loop.
\<close>

theorem loop_bounded:
  "run_loop env goal max_steps 0 s = (r, steps, s') \<Longrightarrow>
   steps = [0..<length steps] \<and> length steps \<le> max_steps \<and> (\<forall>k \<in> set steps. k < max_steps) \<and>
   ((\<forall>k t. fst (run_step env goal k t) = Continue) \<longrightarrow> length steps = max_steps)"
proof -
  assume a: "run_loop env goal max_steps 0 s = (r, steps, s')"
  from run_loop_steps[OF a] have st: "steps = [0..<length steps]" and le: "length steps \<le> max_steps"
    by simp_all
  have "\<forall>k \<in> set steps. k < max_steps"
  proof
    fix k assume "k \<in> set steps"
    with st have "k \<in> set [0..<length steps]" by simp
    with le show "k < max_steps" by simp
  qed
  moreover have "(\<forall>k t. fst (run_step env goal k t) = Continue) \<longrightarrow> length steps = max_steps"
    using run_loop_all_continue[of env goal max_steps 0 s] a by auto
  ultimately show ?thesis using st le by blast
qed

theorem loop_bounded_witness:
  "fst (snd (run_loop (plan_env type_plan (Inr [])) ''search X'' MAX_STEPS 0 (init_agent ()))) = [0, 1, 2, 3, 4, 5, 6, 7, 8, 9] \<and>
   length (fst (snd (run_loop (plan_env type_plan (Inr [])) ''search X'' MAX_STEPS 0 (init_agent ())))) \<le> MAX_STEPS"
proof -
  let ?run = "run_loop (plan_env type_plan (Inr [])) ''search X'' MAX_STEPS 0 (init_agent ())"
  have ev: "fst (snd ?run) = [0, 1, 2, 3, 4, 5, 6, 7, 8, 9]"
    by (simp add: run_loop.simps MAX_STEPS_def stub_defs)
  have "?run = (fst ?run, fst (snd ?run), snd (snd ?run))" by simp
  from loop_bounded[OF this] have "length (fst (snd ?run)) \<le> MAX_STEPS" by blast
  with ev show ?thesis by blast
qed

text \<open>
  Claim C2. When the call of the reasoning service raises, or its answer does not decode
  as JSON, \<open>get_next_action\<close> returns exactly the degraded plan (action finish, thought
  "API call failed."), and the pass that made the call ends the loop with the history and
  the collected data unchanged.
\<close>

theorem planner_failure_finishes:
  assumes fails: "case generate_content env w (build_prompt goal url dom_snippet hist) of
                    (Inl e, w') \<Rightarrow> True
                  | (Inr response_text, w') \<Rightarrow> isl (json_loads env response_text)"
  shows "fst (get_next_action env goal url dom_snippet hist w) = degraded_plan \<and>
         (page_content env w = Inr content \<and> url = page_url env w \<and>
          dom_snippet = simplify (html_parser env) (prettify env) content \<longrightarrow>
            run_step env goal step \<lparr>history = hist, collected_data = cd, world = w\<rparr> =
              (Break, \<lparr>history = hist, collected_data = cd,
                       world = snd (generate_content env w (build_prompt goal url dom_snippet hist))\<rparr>) \<and>
            (step < max_steps \<longrightarrow>
               run_loop env goal max_steps step \<lparr>history = hist, collected_data = cd, world = w\<rparr> =
                 (None, [step], \<lparr>history = hist, collected_data = cd,
                       world = snd (generate_content env w (build_prompt goal url dom_snippet hist))\<rparr>)))"
proof -
  let ?w' = "snd (generate_content env w (build_prompt goal url dom_snippet hist))"
  let ?s = "\<lparr>history = hist, collected_data = cd, world = w\<rparr>"
  have g: "get_next_action env goal url dom_snippet hist w = (degraded_plan, ?w')"
    using fails by (auto simp: get_next_action_def split: prod.splits sum.splits)
  have "run_step env goal step ?s = (Break, \<lparr>history = hist, collected_data = cd, world = ?w'\<rparr>)"
    if "page_content env w = Inr content" "url = page_url env w"
       "dom_snippet = simplify (html_parser env) (prettify env) content"
  proof -
    from that g have "step_plan env goal ?s = Some (PDict [(''action'', PStr ''finish''), (''thought'', PStr ''API call failed.'')], ?w')"
      by (simp add: step_plan_def degraded_plan_def)
    from run_step_act[OF this degraded_fields] show ?thesis by (simp add: act_finish)
  qed
  then show ?thesis using g by (auto simp: run_loop_break)
qed

theorem planner_failure_finishes_witness:
  "fst (get_next_action (stub_env (Inl (Error ''network'')) (Inr type_plan) (Inr [])) ''search X''
          ''https://example.org/'' ''<html></html>'' [] ()) = degraded_plan \<and>
   run_loop (stub_env (Inl (Error ''network'')) (Inr type_plan) (Inr [])) ''search X'' MAX_STEPS 0
       \<lparr>history = [], collected_data = [], world = ()\<rparr> =
     (None, [0], \<lparr>history = [], collected_data = [], world = ()\<rparr>)"
  using planner_failure_finishes [where env = "stub_env (Inl (Error ''network'')) (Inr type_plan) (Inr [])"
      and w = "()" and goal = "''search X''" and url = "''https://example.org/''"
      and dom_snippet = "''<html></html>''" and hist = "[]" and content = "''<html></html>''"
      and step = 0 and cd = "[]" and max_steps = MAX_STEPS]
  by (simp add: stub_env_def simplify_def MAX_STEPS_def)

text \<open>
  Claim C3. A plan whose action is outside type, click, scrape and finish should be
  skipped without a change of page or history. For a string that is what the action
  phase does (\<open>act_unknown\<close>). A plan without an action never reaches it:
  \<open>plan.get('action')\<close> is \<open>None\<close>, \<open>action.upper()\<close> on line 166 raises
  \<open>AttributeError\<close> outside every handler, and the exception leaves \<open>run\<close>.
\<close>

theorem missing_action_raises:
  "run (plan_env no_action_plan (Inr [])) ''https://example.org/'' ''search X'' (init_agent ()) =
     (Some (no_attribute PNone ''upper''), [0], init_agent ())"
  by (simp add: run_def run_loop.simps MAX_STEPS_def stub_defs)




text \<open>
  Claim C5, as stated: every scrape that matches no element adds a warning entry. It
  fails when the value of the plan is the finish signal: the record with no items and the
  outcome entry are appended, the loop ends, and no warning is written.
\<close>

theorem zero_scrape_warning_counterexample:
  "run_step (plan_env (scrape_plan ''finish'') (Inr [])) ''search X'' 0 (init_agent ()) =
     (Break, \<lparr>history = [''Scraped data from .result''],
              collected_data = [\<lparr>rec_step = 0, rec_data = []\<rparr>], world = ()\<rparr>)"
  by (simp add: stub_defs)

text \<open>
  Claim C5, amended. A scrape that matches no element and whose value is not the finish
  signal appends a record with an empty item list to the collected data, appends the
  outcome entry and then the warning entry ("Try a different selector") to the history,
  and the loop goes on to the next pass.
\<close>

theorem zero_scrape_warns:
  assumes "step_plan env goal s = Some (PDict kvs, wp)"
    and "py_get kvs ''action'' = PStr ''scrape''"
    and "py_get kvs ''value'' \<noteq> PStr ''finish''"
    and "query_selector_all env (snd (wait_for_selector env wp (py_get kvs ''selector'') ''attached'' 5000))
           (py_get kvs ''selector'') = Inr []"
  shows "run_step env goal step s =
     (Continue,
      s\<lparr>history := history s @ [scraped_msg (py_repr env) (py_get kvs ''selector''),
                                 warning_msg (py_repr env) (py_get kvs ''selector'')],
        collected_data := collected_data s @ [\<lparr>rec_step = step, rec_data = []\<rparr>],
        world := snd (wait_for_selector env wp (py_get kvs ''selector'') ''attached'' 5000)\<rparr>)"
proof -
  have "run_step env goal step s =
      act env step (PStr ''scrape'') (py_get kvs ''selector'') (py_get kvs ''value'') (s\<lparr>world := wp\<rparr>)"
    using assms(1,2) by (rule run_step_act)
  also have "\<dots> = (Continue,
      s\<lparr>history := history s @ [scraped_msg (py_repr env) (py_get kvs ''selector''),
                                 warning_msg (py_repr env) (py_get kvs ''selector'')],
        collected_data := collected_data s @ [\<lparr>rec_step = step, rec_data = []\<rparr>],
        world := snd (wait_for_selector env wp (py_get kvs ''selector'') ''attached'' 5000)\<rparr>)"
    using assms(3,4) by (simp add: act_scrape [where els = "[]" and data = "[]"])
  finally show ?thesis .
qed

theorem zero_scrape_warns_witness:
  "run_step (plan_env (scrape_plan ''all results'') (Inr [])) ''search X'' 2
     \<lparr>history = [''Clicked #submit''], collected_data = [], world = ()\<rparr> =
   (Continue,
    \<lparr>history = [''Clicked #submit'', ''Scraped data from .result'',
                ''WARNING: Scraped 0 items using .result. Try a different selector.''],
     collected_data = [\<lparr>rec_step = 2, rec_data = []\<rparr>], world = ()\<rparr>)"
  using zero_scrape_warns [where env = "plan_env (scrape_plan ''all results'') (Inr [])"
      and goal = "''search X''" and step = 2 and wp = "()"
      and s = "\<lparr>history = [''Clicked #submit''], collected_data = [], world = ()\<rparr>"
      and kvs = "[(''thought'', PStr ''read''), (''action'', PStr ''scrape''),
                  (''selector'', PStr ''.result''), (''value'', PStr ''all results'')]"]
  by (simp add: step_plan_def plan_env_def stub_env_def scrape_plan_def get_next_action_def py_get_def
        scraped_msg_def warning_msg_def)

text \<open>
  Claim C6, as stated: every scrape whose value is the finish signal ends the loop. It
  fails when the query for the elements raises (an invalid selector, say): the handler
  appends the failure to the history, nothing is recorded, and the loop runs on.
\<close>

theorem scrape_finish_counterexample:
  "run_step (plan_env (scrape_plan ''finish'') (Inl (Error ''bad selector''))) ''search X'' 0 (init_agent ()) =
     (Continue, \<lparr>history = [''Failed to execute scrape on .result: bad selector''],
                 collected_data = [], world = ()\<rparr>) \<and>
   fst (snd (run (plan_env (scrape_plan ''finish'') (Inl (Error ''bad selector''))) ''https://example.org/''
          ''search X'' (init_agent ()))) = [0, 1, 2, 3, 4, 5, 6, 7, 8, 9]"
  by (simp add: run_def run_loop.simps MAX_STEPS_def stub_defs)

text \<open>
  Claim C6, amended. A scrape whose value is the finish signal, and whose query and
  reads of the matched elements raise nothing, ends the loop on that pass, with the
  scraped record already appended to the collected data.
\<close>

theorem scrape_finish_breaks:
  assumes "step_plan env goal s = Some (PDict kvs, wp)"
    and "py_get kvs ''action'' = PStr ''scrape''"
    and "py_get kvs ''value'' = PStr ''finish''"
    and "query_selector_all env (snd (wait_for_selector env wp (py_get kvs ''selector'') ''attached'' 5000))
           (py_get kvs ''selector'') = Inr els"
    and "scrape_elements els [] = Inr data"
  shows "run_step env goal step s =
     (Break,
      s\<lparr>history := history s @ [scraped_msg (py_repr env) (py_get kvs ''selector'')],
        collected_data := collected_data s @ [\<lparr>rec_step = step, rec_data = data\<rparr>],
        world := snd (wait_for_selector env wp (py_get kvs ''selector'') ''attached'' 5000)\<rparr>) \<and>
     (step < max_steps \<longrightarrow>
        run_loop env goal max_steps step s =
          (None, [step],
           s\<lparr>history := history s @ [scraped_msg (py_repr env) (py_get kvs ''selector'')],
             collected_data := collected_data s @ [\<lparr>rec_step = step, rec_data = data\<rparr>],
             world := snd (wait_for_selector env wp (py_get kvs ''selector'') ''attached'' 5000)\<rparr>))"
proof -
  have "run_step env goal step s =
      act env step (PStr ''scrape'') (py_get kvs ''selector'') (py_get kvs ''value'') (s\<lparr>world := wp\<rparr>)"
    using assms(1,2) by (rule run_step_act)
  also have "\<dots> = (Break,
      s\<lparr>history := history s @ [scraped_msg (py_repr env) (py_get kvs ''selector'')],
        collected_data := collected_data s @ [\<lparr>rec_step = step, rec_data = data\<rparr>],
        world := snd (wait_for_selector env wp (py_get kvs ''selector'') ''attached'' 5000)\<rparr>)"
    using assms(3,4,5) by (simp add: act_scrape [where els = els and data = data])
  finally show ?thesis by (simp add: run_loop_break)
qed

theorem scrape_finish_breaks_witness:
  "run_loop (plan_env (scrape_plan ''finish'') (Inr [result_el, blank_el])) ''search X'' MAX_STEPS 2
     \<lparr>history = [''Clicked #submit''], collected_data = [], world = ()\<rparr> =
   (None, [2],
    \<lparr>history = [''Clicked #submit'', ''Scraped data from .result''],
     collected_data = [\<lparr>rec_step = 2, rec_data =
        [\<lparr>item_text = ''hi there'', item_link = Some ''https://example.org/x''\<rparr>]\<rparr>], world = ()\<rparr>)"
  using scrape_finish_breaks [where env = "plan_env (scrape_plan ''finish'') (Inr [result_el, blank_el])"
      and goal = "''search X''" and step = 2 and wp = "()" and max_steps = MAX_STEPS
      and s = "\<lparr>history = [''Clicked #submit''], collected_data = [], world = ()\<rparr>"
      and kvs = "[(''thought'', PStr ''read''), (''action'', PStr ''scrape''),
                  (''selector'', PStr ''.result''), (''value'', PStr ''finish'')]"
      and els = "[result_el, blank_el]"
      and data = "[\<lparr>item_text = ''hi there'', item_link = Some ''https://example.org/x''\<rparr>]"]
  by (simp add: step_plan_def plan_env_def stub_env_def scrape_plan_def get_next_action_def py_get_def
        scraped_msg_def MAX_STEPS_def el_defs)

text \<open>
  Claim C7. A scrape that matches no element and whose value is the finish signal ends the
  loop after appending the empty record and the outcome entry; the warning entry is not
  appended (the outcome entry is the only new one, and it is not the warning).
\<close>

theorem zero_scrape_finish_no_warning:
  assumes "step_plan env goal s = Some (PDict kvs, wp)"
    and "py_get kvs ''action'' = PStr ''scrape''"
    and "py_get kvs ''value'' = PStr ''finish''"
    and "query_selector_all env (snd (wait_for_selector env wp (py_get kvs ''selector'') ''attached'' 5000))
           (py_get kvs ''selector'') = Inr []"
  shows "run_step env goal step s =
     (Break,
      s\<lparr>history := history s @ [scraped_msg (py_repr env) (py_get kvs ''selector'')],
        collected_data := collected_data s @ [\<lparr>rec_step = step, rec_data = []\<rparr>],
        world := snd (wait_for_selector env wp (py_get kvs ''selector'') ''attached'' 5000)\<rparr>) \<and>
     scraped_msg (py_repr env) (py_get kvs ''selector'') \<noteq> warning_msg (py_repr env) (py_get kvs ''selector'') \<and>
     (step < max_steps \<longrightarrow>
        fst (run_loop env goal max_steps step s) = None \<and>
        fst (snd (run_loop env goal max_steps step s)) = [step] \<and>
        snd (snd (run_loop env goal max_steps step s)) = snd (run_step env goal step s))"
proof -
  have "run_step env goal step s =
      act env step (PStr ''scrape'') (py_get kvs ''selector'') (py_get kvs ''value'') (s\<lparr>world := wp\<rparr>)"
    using assms(1,2) by (rule run_step_act)
  also have "\<dots> = (Break,
      s\<lparr>history := history s @ [scraped_msg (py_repr env) (py_get kvs ''selector'')],
        collected_data := collected_data s @ [\<lparr>rec_step = step, rec_data = []\<rparr>],
        world := snd (wait_for_selector env wp (py_get kvs ''selector'') ''attached'' 5000)\<rparr>)"
    using assms(3,4) by (simp add: act_scrape [where els = "[]" and data = "[]"])
  finally show ?thesis by (simp add: run_loop_break scraped_not_warning)
qed

theorem zero_scrape_finish_no_warning_witness:
  "run_step (plan_env (scrape_plan ''finish'') (Inr [])) ''search X'' 3
     \<lparr>history = [''Typed X''], collected_data = [], world = ()\<rparr> =
   (Break,
    \<lparr>history = [''Typed X'', ''Scraped data from .result''],
     collected_data = [\<lparr>rec_step = 3, rec_data = []\<rparr>], world = ()\<rparr>) \<and>
   fst (snd (run_loop (plan_env (scrape_plan ''finish'') (Inr [])) ''search X'' MAX_STEPS 3
     \<lparr>history = [''Typed X''], collected_data = [], world = ()\<rparr>)) = [3]"
  using zero_scrape_finish_no_warning [where env = "plan_env (scrape_plan ''finish'') (Inr [])"
      and goal = "''search X''" and step = 3 and wp = "()" and max_steps = MAX_STEPS
      and s = "\<lparr>history = [''Typed X''], collected_data = [], world = ()\<rparr>"
      and kvs = "[(''thought'', PStr ''read''), (''action'', PStr ''scrape''),
                  (''selector'', PStr ''.result''), (''value'', PStr ''finish'')]"]
  by (simp add: step_plan_def plan_env_def stub_env_def scrape_plan_def get_next_action_def py_get_def
        scraped_msg_def MAX_STEPS_def)

text \<open>
  Claim C9. Every item that a run appends to the collected data has a text that is not
  empty and is already trimmed, so its trimmed text is not empty either.
\<close>

theorem scraped_items_clean:
  "run_loop env goal max_steps step s = (r, steps, s') \<Longrightarrow>
   \<exists>new. collected_data s' = collected_data s @ new \<and> clean_records new"
proof (induction env goal max_steps step s arbitrary: r steps s' rule: run_loop.induct)
  case (1 env goal max_steps step s)
  show ?case
  proof (cases "step < max_steps")
    case False
    with "1.prems" show ?thesis by (simp add: run_loop_done clean_records_def)
  next
    case True
    obtain c s1 where rs: "run_step env goal step s = (c, s1)" by (cases "run_step env goal step s")
    from run_step_collected[of env goal step s] rs
    obtain new1 where n1: "collected_data s1 = collected_data s @ new1" "clean_records new1" by auto
    show ?thesis
    proof (cases c)
      case Continue
      obtain r2 steps2 s2 where rl: "run_loop env goal max_steps (Suc step) s1 = (r2, steps2, s2)"
        by (cases "run_loop env goal max_steps (Suc step) s1")
      from "1.IH"[OF True rs[symmetric] Continue rl]
      obtain new2 where n2: "collected_data s2 = collected_data s1 @ new2" "clean_records new2" by auto
      from "1.prems" True rs Continue rl have "s' = s2" by (simp add: run_loop_continue)
      with n1 n2 have "collected_data s' = collected_data s @ (new1 @ new2) \<and> clean_records (new1 @ new2)"
        by (simp add: clean_records_append)
      then show ?thesis by blast
    next
      case Break
      with "1.prems" True rs have "s' = s1" by (simp add: run_loop_break)
      with n1 show ?thesis by blast
    next
      case (Raise e)
      with "1.prems" True rs have "s' = s1" by (simp add: run_loop_raise)
      with n1 show ?thesis by blast
    qed
  qed
qed

theorem scraped_items_clean_witness:
  "collected_data (snd (snd (run_loop (plan_env (scrape_plan ''all results'') (Inr [blank_el, result_el]))
       ''search X'' 2 0 (init_agent ())))) =
     [\<lparr>rec_step = 0, rec_data = [\<lparr>item_text = ''hi there'', item_link = Some ''https://example.org/x''\<rparr>]\<rparr>,
      \<lparr>rec_step = 1, rec_data = [\<lparr>item_text = ''hi there'', item_link = Some ''https://example.org/x''\<rparr>]\<rparr>] \<and>
   clean_records (collected_data (snd (snd (run_loop (plan_env (scrape_plan ''all results'') (Inr [blank_el, result_el]))
       ''search X'' 2 0 (init_agent ())))))"
proof -
  let ?run = "run_loop (plan_env (scrape_plan ''all results'') (Inr [blank_el, result_el])) ''search X'' 2 0 (init_agent ())"
  have ev: "collected_data (snd (snd ?run)) =
     [\<lparr>rec_step = 0, rec_data = [\<lparr>item_text = ''hi there'', item_link = Some ''https://example.org/x''\<rparr>]\<rparr>,
      \<lparr>rec_step = 1, rec_data = [\<lparr>item_text = ''hi there'', item_link = Some ''https://example.org/x''\<rparr>]\<rparr>]"
    by (simp add: run_loop.simps stub_defs el_defs)
  have "?run = (fst ?run, fst (snd ?run), snd (snd ?run))" by simp
  from scraped_items_clean[OF this] have "clean_records (collected_data (snd (snd ?run)))"
    by (auto simp: init_agent_def)
  with ev show ?thesis by blast
qed

end
